theory Spec2Isabelle
  imports Main
begin

section \<open>punctuator.py: a line-by-line text-correction filter\<close>

text \<open>
  The script reads standard input line by line. A line that is blank after
  \<^verbatim>\<open>strip()\<close> is answered by a bare \<^verbatim>\<open>print()\<close>. Any other line is
  tokenized, cut to \<^verbatim>\<open>MAX_TOKENS\<close> tokens when longer, handed to the text
  generator with a length budget derived from its word count, and the first
  candidate's text is printed with \<^verbatim>\<open>flush=True\<close>.

  The tokenizer and the generator come from the \<^verbatim>\<open>transformers\<close> library and are
  not part of the script: they are parameters of the model below. Every call to
  them and every \<^verbatim>\<open>print\<close> is recorded in a trace, and every exception is a
  value, so that what the script calls, in which order, and where it stops can
  be stated.
\<close>

subsection \<open>Python strings\<close>

text \<open>
  A Python \<^verbatim>\<open>str\<close> is a sequence of Unicode code points; \<^verbatim>\<open>strip()\<close> and
  \<^verbatim>\<open>split()\<close> without arguments use \<^verbatim>\<open>str.isspace\<close> on each code point. A
  string is therefore a list of code points here, and \<open>str\<close> turns an ASCII
  literal into one.
\<close>

type_synonym pystr = "nat list"

definition str :: "string \<Rightarrow> pystr" where
  "str s = map of_char s"

text \<open>The code points for which CPython's \<^verbatim>\<open>str.isspace\<close> holds.\<close>

definition isspace :: "nat \<Rightarrow> bool" where
  "isspace c \<longleftrightarrow>
     (0x09 \<le> c \<and> c \<le> 0x0D) \<or> (0x1C \<le> c \<and> c \<le> 0x20) \<or> c = 0x85 \<or> c = 0xA0 \<or>
     c = 0x1680 \<or> (0x2000 \<le> c \<and> c \<le> 0x200A) \<or> c = 0x2028 \<or> c = 0x2029 \<or>
     c = 0x202F \<or> c = 0x205F \<or> c = 0x3000"

text \<open>\<^verbatim>\<open>line.strip()\<close>: leading and trailing whitespace removed.\<close>

definition strip :: "pystr \<Rightarrow> pystr" where
  "strip s = rev (dropWhile isspace (rev (dropWhile isspace s)))"

text \<open>
  \<^verbatim>\<open>text.split()\<close>: the maximal runs of non-whitespace code points, in order.
  \<open>split_from cur s\<close> scans \<open>s\<close> with the word read so far (reversed) in \<open>cur\<close>.
\<close>

fun split_from :: "pystr \<Rightarrow> pystr \<Rightarrow> pystr list" where
  "split_from cur [] = (if cur = [] then [] else [rev cur])"
| "split_from cur (c # cs) =
     (if isspace c then (if cur = [] then split_from [] cs else rev cur # split_from [] cs)
      else split_from (c # cur) cs)"

definition split :: "pystr \<Rightarrow> pystr list" where
  "split s = split_from [] s"

text \<open>
  \<^verbatim>\<open>ids[:n]\<close> for a Python integer \<open>n\<close>: the first \<open>n\<close> elements, and for a
  negative \<open>n\<close> all but the last \<open>-n\<close>.
\<close>

definition slice_to :: "'a list \<Rightarrow> int \<Rightarrow> 'a list" where
  "slice_to xs n = (if 0 \<le> n then take (nat n) xs else take (nat (int (length xs) + n)) xs)"

subsection \<open>Collaborators, exceptions and the trace\<close>

datatype exn = Raised string | IndexError | KeyError

text \<open>
  \<open>tokenizer_encode text truncation\<close>, \<open>tokenizer_decode ids skip_special_tokens\<close>,
  \<open>tokenizer_model_max_length\<close> and
  \<open>model text max_length min_length do_sample truncation\<close>, which returns a list
  of candidates, each a dictionary.
\<close>

record collaborators =
  tokenizer_encode :: "pystr \<Rightarrow> bool \<Rightarrow> exn + int list"
  tokenizer_decode :: "int list \<Rightarrow> bool \<Rightarrow> exn + pystr"
  tokenizer_model_max_length :: int
  model :: "pystr \<Rightarrow> int \<Rightarrow> int \<Rightarrow> bool \<Rightarrow> bool \<Rightarrow> exn + (string \<rightharpoonup> pystr) list"

datatype event =
  TokenizerEncode pystr bool
| TokenizerDecode "int list" bool
| ModelCall pystr int int bool bool
| Print pystr bool

text \<open>
  \<open>Print s flush\<close> is \<^verbatim>\<open>print(s, flush=flush)\<close>; the bare \<^verbatim>\<open>print()\<close> is
  \<open>Print [] False\<close>, an empty line written with no flush requested.

  A computation is the trace of what it did and either the exception that
  stopped it or its value.
\<close>

type_synonym 'a comp = "event list \<times> (exn + 'a)"

definition bind :: "'a comp \<Rightarrow> ('a \<Rightarrow> 'b comp) \<Rightarrow> 'b comp" where
  "bind m k =
     (case m of
        (tr, Inl e) \<Rightarrow> (tr, Inl e)
      | (tr, Inr v) \<Rightarrow> (case k v of (tr', r) \<Rightarrow> (tr @ tr', r)))"

definition encode_call :: "collaborators \<Rightarrow> pystr \<Rightarrow> bool \<Rightarrow> int list comp" where
  "encode_call env text truncation =
     ([TokenizerEncode text truncation], tokenizer_encode env text truncation)"

definition decode_call :: "collaborators \<Rightarrow> int list \<Rightarrow> bool \<Rightarrow> pystr comp" where
  "decode_call env ids skip_special_tokens =
     ([TokenizerDecode ids skip_special_tokens], tokenizer_decode env ids skip_special_tokens)"

definition model_call ::
  "collaborators \<Rightarrow> pystr \<Rightarrow> int \<Rightarrow> int \<Rightarrow> bool \<Rightarrow> bool \<Rightarrow> (string \<rightharpoonup> pystr) list comp" where
  "model_call env text max_length min_length do_sample truncation =
     ([ModelCall text max_length min_length do_sample truncation],
      model env text max_length min_length do_sample truncation)"

definition print_call :: "pystr \<Rightarrow> bool \<Rightarrow> unit comp" where
  "print_call s flush = ([Print s flush], Inr ())"

text \<open>\<^verbatim>\<open>out[0]\<close> and \<^verbatim>\<open>d[key]\<close>, which raise on an empty list and a missing key.\<close>

definition first_item :: "'a list \<Rightarrow> 'a comp" where
  "first_item out = ([], case out of [] \<Rightarrow> Inl IndexError | c # _ \<Rightarrow> Inr c)"

definition getitem :: "(string \<rightharpoonup> 'v) \<Rightarrow> string \<Rightarrow> 'v comp" where
  "getitem d key = ([], case d key of None \<Rightarrow> Inl KeyError | Some v \<Rightarrow> Inr v)"

subsection \<open>The script\<close>

text \<open>
  The loop of \<^verbatim>\<open>punctuator.py\<close>:
  \<^verbatim>\<open>
  MAX_TOKENS = tokenizer.model_max_length  # usually 512

  for line in sys.stdin:
      text = line.strip()
      if not text:
          print()  # preserve empty lines
          continue

      # 1) tokenize & truncate to 512
      ids = tokenizer.encode(text, truncation=False)
      if len(ids) > MAX_TOKENS:
          ids = ids[:MAX_TOKENS]
          # decode back to a shorter string
          text = tokenizer.decode(ids, skip_special_tokens=True)

      # 2) generate with safe lengths
      word_count = len(text.split())
      max_len   = max(word_count * 2, 5)  # at least 5 tokens out
      out = model(
          text,
          max_length=max_len,
          min_length=1,
          do_sample=False,
          truncation=True,     # extra guard
      )

      print(out[0]["generated_text"], flush=True)
  \<close>
  The body is modelled in its two numbered steps, \<open>truncate_text\<close> and
  \<open>generate\<close>, which \<open>process_line\<close> puts together after the blank-line test.
\<close>

definition MAX_TOKENS :: "collaborators \<Rightarrow> int" where
  "MAX_TOKENS env = tokenizer_model_max_length env"

text \<open>
  Step 1 of the loop body, for a non-empty \<open>text\<close>: tokenize without truncation,
  and when there are more than \<open>MAX_TOKENS\<close> ids, keep \<^verbatim>\<open>ids[:MAX_TOKENS]\<close> and
  decode them back, skipping special tokens. The value is the text that goes on
  to the generator.
\<close>

definition truncate_text :: "collaborators \<Rightarrow> pystr \<Rightarrow> pystr comp" where
  "truncate_text env text =
     bind (encode_call env text False) (\<lambda>ids.
       if int (length ids) > MAX_TOKENS env
       then decode_call env (slice_to ids (MAX_TOKENS env)) True
       else ([], Inr text))"

definition word_count :: "pystr \<Rightarrow> nat" where
  "word_count text = length (split text)"

definition max_len :: "pystr \<Rightarrow> int" where
  "max_len text = max (int (word_count text) * 2) 5"

text \<open>
  The number of whitespace-separated words of a text, said without \<open>split\<close>:
  a word starts at every non-whitespace code point that is the first of the
  text or comes right after a whitespace code point. \<open>word_starts\<close> lists
  these places, each as the pair of the code point before it (a space stands
  in before the first) and the code point itself; \<open>word_count\<close> is compared
  with its length.
\<close>

definition word_starts :: "pystr \<Rightarrow> (nat \<times> nat) list" where
  "word_starts s = filter (\<lambda>(p, c). isspace p \<and> \<not> isspace c) (zip (0x20 # s) s)"

text \<open>
  Step 2: the generator call with its length budget, then
  \<^verbatim>\<open>print(out[0]["generated_text"], flush=True)\<close>.
\<close>

definition generate :: "collaborators \<Rightarrow> pystr \<Rightarrow> unit comp" where
  "generate env text =
     bind (model_call env text (max_len text) 1 False True) (\<lambda>out.
     bind (first_item out) (\<lambda>candidate.
     bind (getitem candidate ''generated_text'') (\<lambda>generated_text.
     print_call generated_text True)))"

text \<open>The body of the loop for one line read from standard input.\<close>

definition process_line :: "collaborators \<Rightarrow> pystr \<Rightarrow> unit comp" where
  "process_line env line =
     (let text = strip line in
      if text = [] then print_call [] False
      else bind (truncate_text env text) (generate env))"

text \<open>\<^verbatim>\<open>for line in sys.stdin\<close>: an exception in the body ends the loop.\<close>

primrec run :: "collaborators \<Rightarrow> pystr list \<Rightarrow> unit comp" where
  "run env [] = ([], Inr ())"
| "run env (line # rest) = bind (process_line env line) (\<lambda>_. run env rest)"

text \<open>The traces of the loop body on each line of a list, one after the other.\<close>

definition traces :: "collaborators \<Rightarrow> pystr list \<Rightarrow> event list" where
  "traces env lines = concat (map (\<lambda>l. fst (process_line env l)) lines)"

subsection \<open>Reading a trace\<close>

fun printed :: "event list \<Rightarrow> (pystr \<times> bool) list" where
  "printed [] = []"
| "printed (Print s flush # tr) = (s, flush) # printed tr"
| "printed (_ # tr) = printed tr"

fun model_calls :: "event list \<Rightarrow> (pystr \<times> int \<times> int \<times> bool \<times> bool) list" where
  "model_calls [] = []"
| "model_calls (ModelCall text mx mn ds tc # tr) = (text, mx, mn, ds, tc) # model_calls tr"
| "model_calls (_ # tr) = model_calls tr"

fun decode_calls :: "event list \<Rightarrow> (int list \<times> bool) list" where
  "decode_calls [] = []"
| "decode_calls (TokenizerDecode ids skip # tr) = (ids, skip) # decode_calls tr"
| "decode_calls (_ # tr) = decode_calls tr"

fun encode_calls :: "event list \<Rightarrow> (pystr \<times> bool) list" where
  "encode_calls [] = []"
| "encode_calls (TokenizerEncode text tc # tr) = (text, tc) # encode_calls tr"
| "encode_calls (_ # tr) = encode_calls tr"

subsection \<open>A concrete tokenizer and generator\<close>

text \<open>
  A character-level tokenizer in the style of the T5 tokenizer the script loads:
  code point \<open>c\<close> has the id \<open>c + 2\<close>, the ids \<open>0\<close> and \<open>1\<close> are the special
  tokens (padding and end of sequence), and \<open>encode\<close> appends the
  end-of-sequence id. The generator echoes its input as its only candidate.
\<close>

definition char_encode :: "pystr \<Rightarrow> bool \<Rightarrow> exn + int list" where
  "char_encode text truncation = Inr (map (\<lambda>c. int c + 2) text @ [1])"

definition char_decode :: "int list \<Rightarrow> bool \<Rightarrow> exn + pystr" where
  "char_decode ids skip_special_tokens =
     Inr (map (\<lambda>i. nat (i - 2)) (filter (\<lambda>i. 2 \<le> i \<or> \<not> skip_special_tokens) ids))"

definition echo_model ::
  "pystr \<Rightarrow> int \<Rightarrow> int \<Rightarrow> bool \<Rightarrow> bool \<Rightarrow> exn + (string \<rightharpoonup> pystr) list" where
  "echo_model text max_length min_length do_sample truncation =
     Inr [[''generated_text'' \<mapsto> text]]"

definition char_env :: "int \<Rightarrow> collaborators" where
  "char_env n =
     \<lparr> tokenizer_encode = char_encode, tokenizer_decode = char_decode,
       tokenizer_model_max_length = n, model = echo_model \<rparr>"

text \<open>
  The same tokenizer with a \<open>decode\<close> that joins the decoded pieces with a
  space, as a tokenizer does whose pieces are words of their own.
\<close>

fun spaced :: "pystr \<Rightarrow> pystr" where
  "spaced [] = []"
| "spaced [c] = [c]"
| "spaced (c # cs) = c # 0x20 # spaced cs"

definition spaced_decode :: "int list \<Rightarrow> bool \<Rightarrow> exn + pystr" where
  "spaced_decode ids skip_special_tokens =
     Inr (spaced (map (\<lambda>i. nat (i - 2)) (filter (\<lambda>i. 2 \<le> i \<or> \<not> skip_special_tokens) ids)))"

definition spaced_env :: "int \<Rightarrow> collaborators" where
  "spaced_env n = (char_env n)\<lparr>tokenizer_decode := spaced_decode\<rparr>"

text \<open>A generator that answers every call with the same two candidates.\<close>

definition two_candidates ::
  "pystr \<Rightarrow> int \<Rightarrow> int \<Rightarrow> bool \<Rightarrow> bool \<Rightarrow> exn + (string \<rightharpoonup> pystr) list" where
  "two_candidates text max_length min_length do_sample truncation =
     Inr [[''generated_text'' \<mapsto> str ''First.''], [''generated_text'' \<mapsto> str ''Second.'']]"

text \<open>
  Collaborators that fail: an \<open>encode\<close> and a generator that raise on the text
  \<^verbatim>\<open>bad\<close>, a \<open>decode\<close> that always raises, and a generator that returns no
  candidate for \<^verbatim>\<open>bad\<close>.
\<close>

definition failing_encode :: "pystr \<Rightarrow> bool \<Rightarrow> exn + int list" where
  "failing_encode text truncation =
     (if text = str ''bad'' then Inl (Raised ''encode'') else char_encode text truncation)"

definition failing_decode :: "int list \<Rightarrow> bool \<Rightarrow> exn + pystr" where
  "failing_decode ids skip_special_tokens = Inl (Raised ''decode'')"

definition failing_model ::
  "pystr \<Rightarrow> int \<Rightarrow> int \<Rightarrow> bool \<Rightarrow> bool \<Rightarrow> exn + (string \<rightharpoonup> pystr) list" where
  "failing_model text max_length min_length do_sample truncation =
     (if text = str ''bad'' then Inl (Raised ''generate'') else Inr [[''generated_text'' \<mapsto> text]])"

definition no_candidates ::
  "pystr \<Rightarrow> int \<Rightarrow> int \<Rightarrow> bool \<Rightarrow> bool \<Rightarrow> exn + (string \<rightharpoonup> pystr) list" where
  "no_candidates text max_length min_length do_sample truncation =
     (if text = str ''bad'' then Inr [] else Inr [[''generated_text'' \<mapsto> text]])"

section \<open>Properties\<close>

subsection \<open>What each step does, case by case\<close>

lemma bind_Inl: "bind (tr, Inl e) k = (tr, Inl e)"
  by (simp add: bind_def)

lemma bind_Inr: "bind (tr, Inr v) k = (tr @ fst (k v), snd (k v))"
  by (simp add: bind_def split: prod.splits)

lemma process_line_blank:
  "strip line = [] \<Longrightarrow> process_line env line = ([Print [] False], Inr ())"
  by (simp add: process_line_def print_call_def)

lemma process_line_nonblank:
  "strip line \<noteq> [] \<Longrightarrow>
   process_line env line = bind (truncate_text env (strip line)) (generate env)"
  by (simp add: process_line_def)

lemma truncate_text_encode_fails:
  "tokenizer_encode env text False = Inl e \<Longrightarrow>
   truncate_text env text = ([TokenizerEncode text False], Inl e)"
  by (simp add: truncate_text_def encode_call_def bind_Inl)

lemma truncate_text_fits:
  "tokenizer_encode env text False = Inr ids \<Longrightarrow> \<not> int (length ids) > MAX_TOKENS env \<Longrightarrow>
   truncate_text env text = ([TokenizerEncode text False], Inr text)"
  by (simp add: truncate_text_def encode_call_def bind_Inr)

lemma truncate_text_over:
  "tokenizer_encode env text False = Inr ids \<Longrightarrow> int (length ids) > MAX_TOKENS env \<Longrightarrow>
   truncate_text env text =
     ([TokenizerEncode text False, TokenizerDecode (slice_to ids (MAX_TOKENS env)) True],
      tokenizer_decode env (slice_to ids (MAX_TOKENS env)) True)"
  by (simp add: truncate_text_def encode_call_def decode_call_def bind_Inr)

lemma generate_model_fails:
  "model env text (max_len text) 1 False True = Inl e \<Longrightarrow>
   generate env text = ([ModelCall text (max_len text) 1 False True], Inl e)"
  by (simp add: generate_def model_call_def bind_Inl)

lemma generate_no_candidate:
  "model env text (max_len text) 1 False True = Inr [] \<Longrightarrow>
   generate env text = ([ModelCall text (max_len text) 1 False True], Inl IndexError)"
  by (simp add: generate_def model_call_def first_item_def bind_Inr bind_Inl)

lemma generate_no_key:
  "model env text (max_len text) 1 False True = Inr (c # cs) \<Longrightarrow>
   c ''generated_text'' = None \<Longrightarrow>
   generate env text = ([ModelCall text (max_len text) 1 False True], Inl KeyError)"
  by (simp add: generate_def model_call_def first_item_def getitem_def bind_Inr bind_Inl)

lemma generate_prints:
  "model env text (max_len text) 1 False True = Inr (c # cs) \<Longrightarrow>
   c ''generated_text'' = Some g \<Longrightarrow>
   generate env text = ([ModelCall text (max_len text) 1 False True, Print g True], Inr ())"
  by (simp add: generate_def model_call_def first_item_def getitem_def print_call_def bind_Inr)

text \<open>Whatever the generator answers, the trace of step 2 starts with its one call.\<close>

lemma generate_trace:
  "\<exists>tr. fst (generate env text) = ModelCall text (max_len text) 1 False True # tr \<and>
        model_calls tr = [] \<and> decode_calls tr = [] \<and> encode_calls tr = [] \<and>
        length (printed tr) \<le> 1"
proof (cases "model env text (max_len text) 1 False True")
  case (Inl e)
  then show ?thesis by (simp add: generate_model_fails)
next
  case (Inr out)
  show ?thesis
  proof (cases out)
    case Nil
    with Inr show ?thesis by (simp add: generate_no_candidate)
  next
    case (Cons c cs)
    with Inr show ?thesis
      by (cases "c ''generated_text''") (simp_all add: generate_no_key generate_prints)
  qed
qed

lemma model_calls_append: "model_calls (xs @ ys) = model_calls xs @ model_calls ys"
  by (induction xs rule: model_calls.induct) simp_all

lemma decode_calls_append: "decode_calls (xs @ ys) = decode_calls xs @ decode_calls ys"
  by (induction xs rule: decode_calls.induct) simp_all

lemma encode_calls_append: "encode_calls (xs @ ys) = encode_calls xs @ encode_calls ys"
  by (induction xs rule: encode_calls.induct) simp_all

lemma printed_append: "printed (xs @ ys) = printed xs @ printed ys"
  by (induction xs rule: printed.induct) simp_all

lemma truncate_text_trace:
  "model_calls (fst (truncate_text env text)) = [] \<and> printed (fst (truncate_text env text)) = []
   \<and> length (decode_calls (fst (truncate_text env text))) \<le> 1
   \<and> encode_calls (fst (truncate_text env text)) = [(text, False)]"
proof (cases "tokenizer_encode env text False")
  case (Inl e)
  then show ?thesis by (simp add: truncate_text_encode_fails)
next
  case (Inr ids)
  then show ?thesis
    by (cases "int (length ids) > MAX_TOKENS env")
       (simp_all add: truncate_text_over truncate_text_fits)
qed

lemma process_line_stops:
  "strip line \<noteq> [] \<Longrightarrow> truncate_text env (strip line) = (tr0, Inl e) \<Longrightarrow>
   process_line env line = (tr0, Inl e)"
  by (simp add: process_line_nonblank bind_Inl)

lemma process_line_goes_on:
  "strip line \<noteq> [] \<Longrightarrow> truncate_text env (strip line) = (tr0, Inr eff) \<Longrightarrow>
   process_line env line = (tr0 @ fst (generate env eff), snd (generate env eff))"
  by (simp add: process_line_nonblank bind_Inr)

lemma process_line_decode_calls:
  "strip line \<noteq> [] \<Longrightarrow>
   decode_calls (fst (process_line env line)) =
     decode_calls (fst (truncate_text env (strip line)))"
proof -
  assume nonblank: "strip line \<noteq> []"
  obtain tr0 r where tt: "truncate_text env (strip line) = (tr0, r)"
    by (cases "truncate_text env (strip line)")
  show ?thesis
  proof (cases r)
    case (Inl e)
    with nonblank tt show ?thesis by (simp add: process_line_stops)
  next
    case (Inr eff)
    obtain tr where "fst (generate env eff) = ModelCall eff (max_len eff) 1 False True # tr"
      and "decode_calls tr = []"
      using generate_trace [of env eff] by blast
    with nonblank tt Inr show ?thesis
      by (simp add: process_line_goes_on decode_calls_append)
  qed
qed

lemma process_line_model_calls:
  "strip line \<noteq> [] \<Longrightarrow> truncate_text env (strip line) = (tr0, Inr eff) \<Longrightarrow>
   model_calls (fst (process_line env line)) = [(eff, max_len eff, 1, False, True)]"
proof -
  assume nonblank: "strip line \<noteq> []" and tt: "truncate_text env (strip line) = (tr0, Inr eff)"
  obtain tr where "fst (generate env eff) = ModelCall eff (max_len eff) 1 False True # tr"
    and "model_calls tr = []"
    using generate_trace [of env eff] by blast
  moreover have "model_calls tr0 = []"
    using truncate_text_trace [of env "strip line"] tt by simp
  ultimately show ?thesis
    using nonblank tt by (simp add: process_line_goes_on model_calls_append)
qed

lemma slice_to_length:
  "0 \<le> n \<Longrightarrow> n < int (length xs) \<Longrightarrow> slice_to xs n = take (nat n) xs \<and> int (length (slice_to xs n)) = n"
  by (simp add: slice_to_def)

lemma process_line_decode_at_most_once:
  "length (decode_calls (fst (process_line env line))) \<le> 1"
proof (cases "strip line = []")
  case True
  then show ?thesis by (simp add: process_line_blank)
next
  case False
  then show ?thesis
    using truncate_text_trace [of env "strip line"] by (simp add: process_line_decode_calls)
qed

lemma split_from_no_space:
  "\<forall>c\<in>set s. \<not> isspace c \<Longrightarrow>
   split_from cur s = (if cur = [] \<and> s = [] then [] else [rev cur @ s])"
  by (induction s arbitrary: cur) simp_all

lemma word_count_single_word:
  "text \<noteq> [] \<Longrightarrow> \<forall>c\<in>set text. \<not> isspace c \<Longrightarrow> word_count text = 1"
  by (simp add: word_count_def split_def split_from_no_space)

text \<open>
  \<open>split\<close> by its equations: whitespace in front is dropped, and a non-empty
  run of non-whitespace code points up to the next whitespace is the next word.
\<close>

lemma split_Nil: "split [] = []"
  by (simp add: split_def)

lemma split_space: "isspace c \<Longrightarrow> split (c # s) = split s"
  by (simp add: split_def)

lemma split_from_word:
  "\<forall>c\<in>set w. \<not> isspace c \<Longrightarrow> isspace c \<Longrightarrow> cur @ w \<noteq> [] \<Longrightarrow>
   split_from cur (w @ c # s) = (rev cur @ w) # split_from [] s"
  by (induction w arbitrary: cur) auto

lemma split_word_then:
  "w \<noteq> [] \<Longrightarrow> \<forall>c\<in>set w. \<not> isspace c \<Longrightarrow> isspace c \<Longrightarrow> split (w @ c # s) = w # split s"
  using split_from_word [of w c "[]" s] by (simp add: split_def)

lemma split_last_word:
  "w \<noteq> [] \<Longrightarrow> \<forall>c\<in>set w. \<not> isspace c \<Longrightarrow> split w = [w]"
  by (simp add: split_def split_from_no_space)

text \<open>The number of words is the number of places where a word starts.\<close>

lemma length_split_from:
  "isspace p = (cur = []) \<Longrightarrow>
   length (split_from cur s) =
     (if cur = [] then 0 else 1)
       + length (filter (\<lambda>(p, c). isspace p \<and> \<not> isspace c) (zip (p # s) s))"
proof (induction s arbitrary: cur p)
  case Nil
  then show ?case by simp
next
  case (Cons c cs)
  show ?case
  proof (cases "isspace c")
    case True
    then have "isspace c = ([] = ([] :: pystr))" by simp
    from Cons.IH [OF this] True Cons.prems show ?thesis by simp
  next
    case False
    then have "isspace c = (c # cur = [])" by simp
    from Cons.IH [OF this] False Cons.prems show ?thesis by simp
  qed
qed

lemma word_count_word_starts: "word_count s = length (word_starts s)"
  using length_split_from [of "0x20" "[]" s]
  by (simp add: word_count_def split_def word_starts_def isspace_def)

lemma process_line_prints_candidate:
  "strip line \<noteq> [] \<Longrightarrow> truncate_text env (strip line) = (tr0, Inr eff) \<Longrightarrow>
   model env eff (max_len eff) 1 False True = Inr (c # cs) \<Longrightarrow>
   c ''generated_text'' = Some g \<Longrightarrow>
   process_line env line = (tr0 @ [ModelCall eff (max_len eff) 1 False True, Print g True], Inr ())"
  by (simp add: process_line_goes_on generate_prints)

text \<open>Every line printed for a non-blank input line is printed with a flush.\<close>

lemma nonblank_prints_flushed:
  "strip line \<noteq> [] \<Longrightarrow> \<forall>(s, flush)\<in>set (printed (fst (process_line env line))). flush"
proof -
  assume nonblank: "strip line \<noteq> []"
  obtain tr0 r where tt: "truncate_text env (strip line) = (tr0, r)"
    by (cases "truncate_text env (strip line)")
  have p0: "printed tr0 = []"
    using truncate_text_trace [of env "strip line"] tt by simp
  show ?thesis
  proof (cases r)
    case (Inl e)
    with nonblank tt p0 show ?thesis by (simp add: process_line_stops)
  next
    case (Inr eff)
    have "\<forall>(s, flush)\<in>set (printed (fst (generate env eff))). flush"
    proof (cases "model env eff (max_len eff) 1 False True")
      case (Inl e)
      then show ?thesis by (simp add: generate_model_fails)
    next
      case out: (Inr out)
      show ?thesis
      proof (cases out)
        case Nil
        with out show ?thesis by (simp add: generate_no_candidate)
      next
        case (Cons c cs)
        with out show ?thesis
          by (cases "c ''generated_text''") (simp_all add: generate_no_key generate_prints)
      qed
    qed
    with nonblank tt Inr p0 show ?thesis
      by (simp add: process_line_goes_on printed_append)
  qed
qed

subsection \<open>The loop\<close>

lemma run_all_ok:
  "\<forall>l\<in>set lines. snd (process_line env l) = Inr () \<Longrightarrow>
   run env lines = (traces env lines, Inr ())"
proof (induction lines)
  case Nil
  then show ?case by (simp add: traces_def)
next
  case (Cons l ls)
  then have "process_line env l = (fst (process_line env l), Inr ())"
    by (simp add: prod_eq_iff)
  then have "run env (l # ls) = (fst (process_line env l) @ fst (run env ls), snd (run env ls))"
    using bind_Inr [of "fst (process_line env l)" "()" "\<lambda>_. run env ls"] by simp
  with Cons show ?case by (simp add: traces_def)
qed

lemma run_first_failure:
  "\<forall>l\<in>set pre. snd (process_line env l) = Inr () \<Longrightarrow>
   process_line env line = (tr, Inl e) \<Longrightarrow>
   run env (pre @ line # post) = (traces env pre @ tr, Inl e)"
proof (induction pre)
  case Nil
  then show ?case by (simp add: traces_def bind_Inl)
next
  case (Cons l ls)
  then have "process_line env l = (fst (process_line env l), Inr ())"
    by (simp add: prod_eq_iff)
  then have "run env ((l # ls) @ line # post) =
      (fst (process_line env l) @ fst (run env (ls @ line # post)), snd (run env (ls @ line # post)))"
    using bind_Inr [of "fst (process_line env l)" "()" "\<lambda>_. run env (ls @ line # post)"] by simp
  with Cons show ?case by (simp add: traces_def)
qed

lemma ok_line_prints_one:
  "snd (process_line env line) = Inr () \<Longrightarrow> length (printed (fst (process_line env line))) = 1"
proof (cases "strip line = []")
  case True
  then show ?thesis by (simp add: process_line_blank)
next
  case False
  assume ok: "snd (process_line env line) = Inr ()"
  obtain tr0 r where tt: "truncate_text env (strip line) = (tr0, r)"
    by (cases "truncate_text env (strip line)")
  have p0: "printed tr0 = []"
    using truncate_text_trace [of env "strip line"] tt by simp
  show ?thesis
  proof (cases r)
    case (Inl e)
    with False tt ok show ?thesis by (simp add: process_line_stops)
  next
    case (Inr eff)
    with False tt ok have gen: "snd (generate env eff) = Inr ()"
      by (simp add: process_line_goes_on)
    have "length (printed (fst (generate env eff))) = 1"
    proof (cases "model env eff (max_len eff) 1 False True")
      case (Inl e)
      with gen show ?thesis by (simp add: generate_model_fails)
    next
      case out: (Inr out)
      show ?thesis
      proof (cases out)
        case Nil
        with out gen show ?thesis by (simp add: generate_no_candidate)
      next
        case (Cons c cs)
        with out gen show ?thesis
          by (cases "c ''generated_text''") (simp_all add: generate_no_key generate_prints)
      qed
    qed
    with False tt Inr p0 show ?thesis
      by (simp add: process_line_goes_on printed_append)
  qed
qed

lemma printed_traces:
  "printed (traces env lines) = concat (map (\<lambda>l. printed (fst (process_line env l))) lines)"
  by (induction lines) (simp_all add: traces_def printed_append)

lemma concat_singletons:
  "\<forall>x\<in>set xs. length (f x) = 1 \<Longrightarrow> concat (map f xs) = map (\<lambda>x. hd (f x)) xs"
proof (induction xs)
  case Nil
  then show ?case by simp
next
  case (Cons x xs)
  then have "length (f x) = 1" by simp
  then have "f x = [hd (f x)]" by (cases "f x") simp_all
  with Cons show ?case by simp
qed

lemma printed_traces_ok:
  assumes "\<forall>l\<in>set lines. snd (process_line env l) = Inr ()"
  shows "printed (traces env lines) = map (\<lambda>l. hd (printed (fst (process_line env l)))) lines"
proof -
  have "\<forall>l\<in>set lines. length (printed (fst (process_line env l))) = 1"
    using assms by (simp add: ok_line_prints_one)
  then show ?thesis
    unfolding printed_traces by (rule concat_singletons)
qed

subsection \<open>Evaluating the script on concrete input\<close>

lemmas script_defs =
  process_line_def truncate_text_def generate_def bind_def encode_call_def decode_call_def
  model_call_def first_item_def getitem_def print_call_def MAX_TOKENS_def max_len_def
  word_count_def split_def strip_def slice_to_def str_def isspace_def Let_def

lemmas char_env_defs = char_env_def char_encode_def char_decode_def echo_model_def

section \<open>The claims\<close>

subsection \<open>C3: blank lines\<close>

text \<open>
  Claim C3. For every input line that is empty after stripping surrounding
  whitespace, the script writes an empty line and calls neither the tokenizer
  nor the generator: the whole trace of the loop body is the one bare
  \<^verbatim>\<open>print()\<close>, and the body ends normally.
\<close>

theorem blank_line_identity:
  assumes "strip line = []"
  shows "process_line env line = ([Print [] False], Inr ())
     \<and> printed (fst (process_line env line)) = [([], False)]
     \<and> encode_calls (fst (process_line env line)) = []
     \<and> decode_calls (fst (process_line env line)) = []
     \<and> model_calls (fst (process_line env line)) = []"
  using assms by (simp add: process_line_blank)

text \<open>The line \<^verbatim>\<open>" \t\n"\<close> is blank after stripping.\<close>

theorem blank_line_identity_witness:
  "strip (str '' '' @ [9, 10]) = []
   \<and> process_line (char_env 512) (str '' '' @ [9, 10]) = ([Print [] False], Inr ())
   \<and> printed (fst (process_line (char_env 512) (str '' '' @ [9, 10]))) = [([], False)]
   \<and> encode_calls (fst (process_line (char_env 512) (str '' '' @ [9, 10]))) = []
   \<and> decode_calls (fst (process_line (char_env 512) (str '' '' @ [9, 10]))) = []
   \<and> model_calls (fst (process_line (char_env 512) (str '' '' @ [9, 10]))) = []"
proof -
  have blank: "strip (str '' '' @ [9, 10]) = []"
    by (simp add: strip_def str_def isspace_def)
  from blank_line_identity [OF blank, of "char_env 512"] blank show ?thesis
    by simp
qed

subsection \<open>C10: the output depends on the stripped text only\<close>

text \<open>
  Claim C10. Two raw input lines that are equal after stripping leading and
  trailing whitespace are processed identically: the same tokenizer calls, the
  same truncation, the same generator call with the same length budget, the
  same printed line and the same outcome. The collaborators are functions of
  their arguments here, which is what deterministic decoding asks of the
  generator.
\<close>

theorem output_depends_on_stripped_text:
  assumes "strip line1 = strip line2"
  shows "process_line env line1 = process_line env line2"
  using assms by (simp add: process_line_def)

theorem output_depends_on_stripped_text_witness:
  "strip (str ''  fix me '' @ [10]) = strip (str ''fix me'')
   \<and> process_line (char_env 512) (str ''  fix me '' @ [10]) = process_line (char_env 512) (str ''fix me'')
   \<and> process_line (char_env 512) (str ''fix me'') =
       ([TokenizerEncode (str ''fix me'') False, ModelCall (str ''fix me'') 5 1 False True,
         Print (str ''fix me'') True], Inr ())"
proof -
  have same: "strip (str ''  fix me '' @ [10]) = strip (str ''fix me'')"
    by (simp add: strip_def str_def isspace_def)
  have run: "process_line (char_env 512) (str ''fix me'') =
       ([TokenizerEncode (str ''fix me'') False, ModelCall (str ''fix me'') 5 1 False True,
         Print (str ''fix me'') True], Inr ())"
    by (simp add: script_defs char_env_defs)
  from output_depends_on_stripped_text [OF same, of "char_env 512"] same run show ?thesis
    by simp
qed

subsection \<open>C9: the prefix cut\<close>

text \<open>
  Claim C9. For every line whose untruncated token sequence is strictly longer
  than \<open>MAX_TOKENS\<close>, the sequence handed to \<^verbatim>\<open>decode\<close> is the prefix
  \<^verbatim>\<open>ids[:MAX_TOKENS]\<close>, of length exactly \<open>MAX_TOKENS\<close>, and the line's trace
  holds that one decode call and no other: the cut is made once.
  \<open>MAX_TOKENS\<close> is the tokenizer's \<^verbatim>\<open>model_max_length\<close>, a capacity counted in
  tokens, hence not negative; a blank line is never tokenized.
\<close>

theorem truncation_exact_once:
  assumes "strip line \<noteq> []"
    and "tokenizer_encode env (strip line) False = Inr ids"
    and "int (length ids) > MAX_TOKENS env"
    and "0 \<le> MAX_TOKENS env"
  shows "decode_calls (fst (process_line env line)) = [(take (nat (MAX_TOKENS env)) ids, True)]
     \<and> int (length (take (nat (MAX_TOKENS env)) ids)) = MAX_TOKENS env"
  using assms slice_to_length [of "MAX_TOKENS env" ids]
  by (simp add: process_line_decode_calls truncate_text_over)

theorem truncation_exact_once_witness:
  "strip (str ''a b c d e f'' @ [10]) \<noteq> []
   \<and> tokenizer_encode (char_env 5) (strip (str ''a b c d e f'' @ [10])) False
       = Inr [99, 34, 100, 34, 101, 34, 102, 34, 103, 34, 104, 1]
   \<and> int (length [99, 34, 100, 34, 101, 34, 102, 34, 103, 34, 104, 1 :: int]) > MAX_TOKENS (char_env 5)
   \<and> 0 \<le> MAX_TOKENS (char_env 5)
   \<and> decode_calls (fst (process_line (char_env 5) (str ''a b c d e f'' @ [10])))
       = [([99, 34, 100, 34, 101], True)]"
proof -
  have a: "strip (str ''a b c d e f'' @ [10]) \<noteq> []"
    by (simp add: strip_def str_def isspace_def)
  have b: "tokenizer_encode (char_env 5) (strip (str ''a b c d e f'' @ [10])) False
       = Inr [99, 34, 100, 34, 101, 34, 102, 34, 103, 34, 104, 1]"
    by (simp add: strip_def str_def isspace_def char_env_defs)
  have c: "int (length [99, 34, 100, 34, 101, 34, 102, 34, 103, 34, 104, 1 :: int]) > MAX_TOKENS (char_env 5)"
    by (simp add: MAX_TOKENS_def char_env_def)
  have d: "0 \<le> MAX_TOKENS (char_env 5)"
    by (simp add: MAX_TOKENS_def char_env_def)
  from truncation_exact_once [OF a b c d] a b c d show ?thesis
    by (simp add: MAX_TOKENS_def char_env_def)
qed

subsection \<open>C1: the length budget\<close>

text \<open>
  Claim C1, as amended. For every non-empty stripped line whose step 1 yields
  the text \<open>eff\<close> (the effective text), the one generator call is made on
  \<open>eff\<close> with \<^verbatim>\<open>max_length = max(word_count * 2, 5)\<close> and
  \<^verbatim>\<open>min_length = 1\<close>, where \<open>word_count\<close>, the length of \<^verbatim>\<open>eff.split()\<close>,
  is the number of places in \<open>eff\<close> where a whitespace-separated word
  starts. The maximum is never below 5, and it is 5 exactly when \<open>eff\<close> has
  at most two words. A single-word line, that is, one whose stripped text has
  no whitespace, yields 5 when its token sequence is no longer than
  \<open>MAX_TOKENS\<close>: then \<open>eff\<close> is the stripped line and has one word.
\<close>

theorem length_budget:
  assumes "strip line \<noteq> []"
    and "truncate_text env (strip line) = (tr0, Inr eff)"
  shows "model_calls (fst (process_line env line))
           = [(eff, max (int (length (word_starts eff)) * 2) 5, 1, False, True)]
     \<and> word_count eff = length (word_starts eff)
     \<and> 5 \<le> max (int (length (word_starts eff)) * 2) 5
     \<and> (max (int (length (word_starts eff)) * 2) 5 = 5) = (length (word_starts eff) \<le> 2)
     \<and> ((\<forall>c\<in>set (strip line). \<not> isspace c)
          \<and> (\<exists>ids. tokenizer_encode env (strip line) False = Inr ids
                 \<and> int (length ids) \<le> MAX_TOKENS env) \<longrightarrow>
         eff = strip line \<and> length (word_starts eff) = 1
         \<and> max (int (length (word_starts eff)) * 2) 5 = 5)"
proof -
  have "model_calls (fst (process_line env line)) = [(eff, max_len eff, 1, False, True)]"
    using assms by (rule process_line_model_calls)
  then have call: "model_calls (fst (process_line env line))
           = [(eff, max (int (length (word_starts eff)) * 2) 5, 1, False, True)]"
    by (simp add: max_len_def word_count_word_starts)
  have five: "(max (int (length (word_starts eff)) * 2) 5 = 5) = (length (word_starts eff) \<le> 2)"
    by auto
  have single: "eff = strip line \<and> length (word_starts eff) = 1
         \<and> max (int (length (word_starts eff)) * 2) 5 = 5"
    if word: "\<forall>c\<in>set (strip line). \<not> isspace c"
      and fits: "\<exists>ids. tokenizer_encode env (strip line) False = Inr ids
                 \<and> int (length ids) \<le> MAX_TOKENS env"
  proof -
    from fits obtain ids where "tokenizer_encode env (strip line) False = Inr ids"
      and "\<not> int (length ids) > MAX_TOKENS env" by auto
    then have "truncate_text env (strip line) = ([TokenizerEncode (strip line) False], Inr (strip line))"
      by (rule truncate_text_fits)
    with assms(2) have same: "eff = strip line" by simp
    with assms(1) word have "word_count eff = 1"
      by (simp add: word_count_single_word)
    then have "length (word_starts eff) = 1"
      by (simp add: word_count_word_starts)
    with same show ?thesis by simp
  qed
  have count: "word_count eff = length (word_starts eff)"
    by (rule word_count_word_starts)
  have floor: "5 \<le> max (int (length (word_starts eff)) * 2) 5"
    by simp
  from call count floor five single show ?thesis
    by blast
qed

text \<open>
  A line with runs of blanks and a tab between its six words gets the budget
  12, and the single-word line \<^verbatim>\<open>hello\<close>, which fits, gets 5.
\<close>

theorem length_budget_witness:
  "strip (str ''  This  is'' @ [9] @ str ''an test of   grammar '' @ [10])
       = str ''This  is'' @ [9] @ str ''an test of   grammar''
   \<and> truncate_text (char_env 512) (str ''This  is'' @ [9] @ str ''an test of   grammar'')
       = ([TokenizerEncode (str ''This  is'' @ [9] @ str ''an test of   grammar'') False],
          Inr (str ''This  is'' @ [9] @ str ''an test of   grammar''))
   \<and> split (str ''This  is'' @ [9] @ str ''an test of   grammar'')
       = [str ''This'', str ''is'', str ''an'', str ''test'', str ''of'', str ''grammar'']
   \<and> length (word_starts (str ''This  is'' @ [9] @ str ''an test of   grammar'')) = 6
   \<and> model_calls (fst (process_line (char_env 512)
         (str ''  This  is'' @ [9] @ str ''an test of   grammar '' @ [10])))
       = [(str ''This  is'' @ [9] @ str ''an test of   grammar'', 12, 1, False, True)]
   \<and> strip (str ''hello'' @ [10]) = str ''hello''
   \<and> tokenizer_encode (char_env 512) (str ''hello'') False = Inr [106, 103, 110, 110, 113, 1]
   \<and> int (length [106, 103, 110, 110, 113, 1 :: int]) \<le> MAX_TOKENS (char_env 512)
   \<and> model_calls (fst (process_line (char_env 512) (str ''hello'' @ [10])))
       = [(str ''hello'', 5, 1, False, True)]"
proof -
  let ?line = "str ''  This  is'' @ [9] @ str ''an test of   grammar '' @ [10]"
  let ?text = "str ''This  is'' @ [9] @ str ''an test of   grammar''"
  have s1: "strip ?line = ?text"
    by (simp add: strip_def str_def isspace_def)
  then have n1: "strip ?line \<noteq> []"
    by (simp add: str_def)
  have t1: "truncate_text (char_env 512) (strip ?line) = ([TokenizerEncode ?text False], Inr ?text)"
    unfolding s1 by (simp add: script_defs char_env_defs)
  have w1: "split ?text = [str ''This'', str ''is'', str ''an'', str ''test'', str ''of'', str ''grammar'']"
    by (simp add: split_def str_def isspace_def)
  have c1: "length (word_starts ?text) = 6"
    by (simp add: word_starts_def str_def isspace_def)
  have s2: "strip (str ''hello'' @ [10]) = str ''hello''"
    by (simp add: strip_def str_def isspace_def)
  then have n2: "strip (str ''hello'' @ [10]) \<noteq> []"
    by (simp add: str_def)
  have t2: "truncate_text (char_env 512) (strip (str ''hello'' @ [10]))
      = ([TokenizerEncode (str ''hello'') False], Inr (str ''hello''))"
    unfolding s2 by (simp add: script_defs char_env_defs)
  have e2: "tokenizer_encode (char_env 512) (str ''hello'') False = Inr [106, 103, 110, 110, 113, 1]"
    by (simp add: str_def char_env_defs)
  have l2: "int (length [106, 103, 110, 110, 113, 1 :: int]) \<le> MAX_TOKENS (char_env 512)"
    by (simp add: MAX_TOKENS_def char_env_def)
  have word2: "\<forall>c\<in>set (strip (str ''hello'' @ [10])). \<not> isspace c"
    unfolding s2 by (simp add: str_def isspace_def)
  have fits2: "\<exists>ids. tokenizer_encode (char_env 512) (strip (str ''hello'' @ [10])) False = Inr ids
      \<and> int (length ids) \<le> MAX_TOKENS (char_env 512)"
    unfolding s2 using e2 l2 by simp
  from length_budget [OF n1 t1] c1
  have m1: "model_calls (fst (process_line (char_env 512) ?line)) = [(?text, 12, 1, False, True)]"
    by simp
  from length_budget [OF n2 t2] word2 fits2
  have m2: "model_calls (fst (process_line (char_env 512) (str ''hello'' @ [10])))
      = [(str ''hello'', 5, 1, False, True)]"
    by simp
  from s1 t1 w1 c1 m1 s2 e2 l2 m2 show ?thesis
    by simp
qed

text \<open>
  The claim as stated gives every single-word line the budget 5. The budget is
  taken from the text after truncation, so a single-word line that is longer
  than \<open>MAX_TOKENS\<close> gets the budget of whatever \<^verbatim>\<open>decode\<close> returns for
  the prefix. With a \<open>decode\<close> that joins pieces with spaces and
  \<open>MAX_TOKENS = 3\<close>, the single-word line \<^verbatim>\<open>abcd\<close> is cut to three tokens,
  decoded to \<^verbatim>\<open>a b c\<close>, and handed to the generator with the budget 6.
\<close>

theorem single_word_budget_counterexample:
  "strip (str ''abcd'' @ [10]) = str ''abcd''
   \<and> split (str ''abcd'') = [str ''abcd'']
   \<and> tokenizer_encode (spaced_env 3) (str ''abcd'') False = Inr [99, 100, 101, 102, 1]
   \<and> int (length [99, 100, 101, 102, 1 :: int]) > MAX_TOKENS (spaced_env 3)
   \<and> process_line (spaced_env 3) (str ''abcd'' @ [10])
       = ([TokenizerEncode (str ''abcd'') False, TokenizerDecode [99, 100, 101] True,
           ModelCall (str ''a b c'') 6 1 False True, Print (str ''a b c'') True], Inr ())
   \<and> model_calls (fst (process_line (spaced_env 3) (str ''abcd'' @ [10])))
       = [(str ''a b c'', 6, 1, False, True)]"
  by (simp add: script_defs char_env_defs spaced_env_def spaced_decode_def)

text \<open>
  A six-word line under capacity: the text goes to the generator unchanged with
  a budget of 12, and one line is printed with a flush.
\<close>

lemma six_word_example:
  "process_line (char_env 512) (str ''This is an test of grammar'' @ [10]) =
     ([TokenizerEncode (str ''This is an test of grammar'') False,
       ModelCall (str ''This is an test of grammar'') 12 1 False True,
       Print (str ''This is an test of grammar'') True], Inr ())"
  by (simp add: script_defs char_env_defs)

subsection \<open>C5: the budget of a truncated line\<close>

text \<open>
  Claim C5. For every non-empty line whose tokenization exceeds \<open>MAX_TOKENS\<close>,
  the budget handed to the generator is computed from the word count of the
  decoded prefix, the text \<open>eff\<close> that \<^verbatim>\<open>decode\<close> returned, not from the
  original line. The witness is a six-word line cut to three words: its budget
  is 6, where the original line's word count would have given 12.
\<close>

theorem budget_from_truncated_text:
  assumes "strip line \<noteq> []"
    and "tokenizer_encode env (strip line) False = Inr ids"
    and "int (length ids) > MAX_TOKENS env"
    and "tokenizer_decode env (slice_to ids (MAX_TOKENS env)) True = Inr eff"
  shows "model_calls (fst (process_line env line))
           = [(eff, max (int (word_count eff) * 2) 5, 1, False, True)]"
proof -
  have "truncate_text env (strip line) =
     ([TokenizerEncode (strip line) False, TokenizerDecode (slice_to ids (MAX_TOKENS env)) True],
      Inr eff)"
    using assms by (simp add: truncate_text_over)
  with assms(1) have "model_calls (fst (process_line env line)) = [(eff, max_len eff, 1, False, True)]"
    by (rule process_line_model_calls)
  then show ?thesis by (simp add: max_len_def)
qed

theorem budget_from_truncated_text_witness:
  "strip (str ''a b c d e f'' @ [10]) \<noteq> []
   \<and> tokenizer_encode (char_env 5) (strip (str ''a b c d e f'' @ [10])) False
       = Inr [99, 34, 100, 34, 101, 34, 102, 34, 103, 34, 104, 1]
   \<and> int (length [99, 34, 100, 34, 101, 34, 102, 34, 103, 34, 104, 1 :: int]) > MAX_TOKENS (char_env 5)
   \<and> tokenizer_decode (char_env 5)
        (slice_to [99, 34, 100, 34, 101, 34, 102, 34, 103, 34, 104, 1] (MAX_TOKENS (char_env 5))) True
       = Inr (str ''a b c'')
   \<and> model_calls (fst (process_line (char_env 5) (str ''a b c d e f'' @ [10])))
       = [(str ''a b c'', 6, 1, False, True)]
   \<and> max (int (word_count (strip (str ''a b c d e f'' @ [10]))) * 2) 5 = 12"
proof -
  have a: "strip (str ''a b c d e f'' @ [10]) \<noteq> []"
    by (simp add: strip_def str_def isspace_def)
  have b: "tokenizer_encode (char_env 5) (strip (str ''a b c d e f'' @ [10])) False
       = Inr [99, 34, 100, 34, 101, 34, 102, 34, 103, 34, 104, 1]"
    by (simp add: strip_def str_def isspace_def char_env_defs)
  have c: "int (length [99, 34, 100, 34, 101, 34, 102, 34, 103, 34, 104, 1 :: int]) > MAX_TOKENS (char_env 5)"
    by (simp add: MAX_TOKENS_def char_env_def)
  have d: "tokenizer_decode (char_env 5)
        (slice_to [99, 34, 100, 34, 101, 34, 102, 34, 103, 34, 104, 1] (MAX_TOKENS (char_env 5))) True
       = Inr (str ''a b c'')"
    by (simp add: MAX_TOKENS_def slice_to_def str_def char_env_defs)
  have e: "word_count (str ''a b c'') = 3"
    by (simp add: word_count_def split_def str_def isspace_def)
  have f: "max (int (word_count (strip (str ''a b c d e f'' @ [10]))) * 2) 5 = 12"
    by (simp add: word_count_def split_def strip_def str_def isspace_def)
  from budget_from_truncated_text [OF a b c d] a b c d e f show ?thesis
    by simp
qed

subsection \<open>C7: the generator call and the printed candidate\<close>

text \<open>
  Claim C7. For every non-empty stripped line whose step 1 yields the text
  \<open>eff\<close>, the generator is called exactly once, on \<open>eff\<close>, with
  \<^verbatim>\<open>do_sample=False\<close> and with \<^verbatim>\<open>truncation=True\<close>, whether or not step 1 has
  already cut the token sequence; and when the generator returns candidates of
  which the first has a \<^verbatim>\<open>generated_text\<close>, that text is the one line printed,
  with a flush, and the loop body ends normally.
\<close>

theorem generator_called_once:
  assumes "strip line \<noteq> []"
    and "truncate_text env (strip line) = (tr0, Inr eff)"
  shows "model_calls (fst (process_line env line)) = [(eff, max_len eff, 1, False, True)]
     \<and> (\<forall>c cs g. model env eff (max_len eff) 1 False True = Inr (c # cs)
            \<and> c ''generated_text'' = Some g \<longrightarrow>
          process_line env line =
            (tr0 @ [ModelCall eff (max_len eff) 1 False True, Print g True], Inr ())
          \<and> printed (fst (process_line env line)) = [(g, True)])"
proof -
  have "printed tr0 = []"
    using truncate_text_trace [of env "strip line"] assms(2) by simp
  then show ?thesis
    using assms by (simp add: process_line_model_calls process_line_prints_candidate printed_append)
qed

text \<open>
  A truncated line and a generator with two candidates: one call, with the
  guard set after the explicit cut, and the first candidate printed.
\<close>

theorem generator_called_once_witness:
  "strip (str ''a b c d e f'' @ [10]) \<noteq> []
   \<and> truncate_text ((char_env 5)\<lparr>model := two_candidates\<rparr>) (strip (str ''a b c d e f'' @ [10]))
       = ([TokenizerEncode (str ''a b c d e f'') False,
           TokenizerDecode [99, 34, 100, 34, 101] True], Inr (str ''a b c''))
   \<and> model_calls (fst (process_line ((char_env 5)\<lparr>model := two_candidates\<rparr>) (str ''a b c d e f'' @ [10])))
       = [(str ''a b c'', 6, 1, False, True)]
   \<and> process_line ((char_env 5)\<lparr>model := two_candidates\<rparr>) (str ''a b c d e f'' @ [10])
       = ([TokenizerEncode (str ''a b c d e f'') False,
           TokenizerDecode [99, 34, 100, 34, 101] True,
           ModelCall (str ''a b c'') 6 1 False True,
           Print (str ''First.'') True], Inr ())"
proof -
  let ?env = "(char_env 5)\<lparr>model := two_candidates\<rparr>"
  have a: "strip (str ''a b c d e f'' @ [10]) \<noteq> []"
    by (simp add: strip_def str_def isspace_def)
  have b: "truncate_text ?env (strip (str ''a b c d e f'' @ [10]))
       = ([TokenizerEncode (str ''a b c d e f'') False,
           TokenizerDecode [99, 34, 100, 34, 101] True], Inr (str ''a b c''))"
    by (simp add: script_defs char_env_defs)
  have c: "max_len (str ''a b c'') = 6"
    by (simp add: max_len_def word_count_def split_def str_def isspace_def)
  have d: "model ?env (str ''a b c'') 6 1 False True =
       Inr [[''generated_text'' \<mapsto> str ''First.''], [''generated_text'' \<mapsto> str ''Second.'']]"
    by (simp add: two_candidates_def)
  from generator_called_once [OF a b] a b c d show ?thesis
    by simp
qed

subsection \<open>C2: the effective text\<close>

text \<open>
  Claim C2, as amended. For every non-empty stripped line whose tokenization
  returns \<open>ids\<close>: when \<open>ids\<close> is longer than \<open>MAX_TOKENS\<close>, the text fed to
  the generator is the decoding, with special tokens skipped, of the first
  \<open>MAX_TOKENS\<close> ids, a sequence of at most \<open>MAX_TOKENS\<close> tokens; when
  \<open>ids\<close> has length at or below \<open>MAX_TOKENS\<close>, nothing is decoded and the
  text fed to the generator is the stripped line itself. Nothing is said of the
  number of tokens that tokenizing the decoded text again would give.
\<close>

theorem effective_text_prefix:
  assumes "strip line \<noteq> []"
    and "tokenizer_encode env (strip line) False = Inr ids"
  shows "(int (length ids) > MAX_TOKENS env \<and> 0 \<le> MAX_TOKENS env
           \<and> tokenizer_decode env (take (nat (MAX_TOKENS env)) ids) True = Inr eff \<longrightarrow>
          decode_calls (fst (process_line env line)) = [(take (nat (MAX_TOKENS env)) ids, True)]
          \<and> int (length (take (nat (MAX_TOKENS env)) ids)) \<le> MAX_TOKENS env
          \<and> model_calls (fst (process_line env line)) = [(eff, max_len eff, 1, False, True)])
     \<and> (int (length ids) \<le> MAX_TOKENS env \<longrightarrow>
          decode_calls (fst (process_line env line)) = []
          \<and> model_calls (fst (process_line env line))
               = [(strip line, max_len (strip line), 1, False, True)])"
proof -
  have over: "decode_calls (fst (process_line env line)) = [(take (nat (MAX_TOKENS env)) ids, True)]
          \<and> int (length (take (nat (MAX_TOKENS env)) ids)) \<le> MAX_TOKENS env
          \<and> model_calls (fst (process_line env line)) = [(eff, max_len eff, 1, False, True)]"
    if long: "int (length ids) > MAX_TOKENS env" and nonneg: "0 \<le> MAX_TOKENS env"
      and dec: "tokenizer_decode env (take (nat (MAX_TOKENS env)) ids) True = Inr eff"
  proof -
    have cut: "slice_to ids (MAX_TOKENS env) = take (nat (MAX_TOKENS env)) ids"
      using nonneg by (simp add: slice_to_def)
    have "truncate_text env (strip line) =
       ([TokenizerEncode (strip line) False, TokenizerDecode (take (nat (MAX_TOKENS env)) ids) True],
        Inr eff)"
      using assms(2) long dec cut by (simp add: truncate_text_over)
    with assms(1) have "model_calls (fst (process_line env line)) = [(eff, max_len eff, 1, False, True)]"
      by (rule process_line_model_calls)
    moreover have "decode_calls (fst (process_line env line)) = [(take (nat (MAX_TOKENS env)) ids, True)]"
      using assms long cut by (simp add: process_line_decode_calls truncate_text_over)
    moreover have "int (length (take (nat (MAX_TOKENS env)) ids)) \<le> MAX_TOKENS env"
      using nonneg by simp
    ultimately show ?thesis by simp
  qed
  have fits: "decode_calls (fst (process_line env line)) = []
          \<and> model_calls (fst (process_line env line))
               = [(strip line, max_len (strip line), 1, False, True)]"
    if short: "int (length ids) \<le> MAX_TOKENS env"
  proof -
    have tt: "truncate_text env (strip line) = ([TokenizerEncode (strip line) False], Inr (strip line))"
      using assms(2) short by (simp add: truncate_text_fits)
    with assms(1) have "model_calls (fst (process_line env line))
               = [(strip line, max_len (strip line), 1, False, True)]"
      by (rule process_line_model_calls)
    moreover have "decode_calls (fst (process_line env line)) = []"
      using assms(1) tt by (simp add: process_line_decode_calls)
    ultimately show ?thesis by simp
  qed
  from over fits show ?thesis by blast
qed

theorem effective_text_prefix_witness:
  "strip (str ''abcd'' @ [10]) \<noteq> []
   \<and> tokenizer_encode (char_env 3) (strip (str ''abcd'' @ [10])) False = Inr [99, 100, 101, 102, 1]
   \<and> int (length [99, 100, 101, 102, 1 :: int]) > MAX_TOKENS (char_env 3)
   \<and> 0 \<le> MAX_TOKENS (char_env 3)
   \<and> tokenizer_decode (char_env 3) (take (nat (MAX_TOKENS (char_env 3))) [99, 100, 101, 102, 1]) True
       = Inr (str ''abc'')
   \<and> decode_calls (fst (process_line (char_env 3) (str ''abcd'' @ [10]))) = [([99, 100, 101], True)]
   \<and> model_calls (fst (process_line (char_env 3) (str ''abcd'' @ [10])))
       = [(str ''abc'', 5, 1, False, True)]
   \<and> tokenizer_encode (char_env 5) (strip (str ''abcd'' @ [10])) False = Inr [99, 100, 101, 102, 1]
   \<and> int (length [99, 100, 101, 102, 1 :: int]) \<le> MAX_TOKENS (char_env 5)
   \<and> decode_calls (fst (process_line (char_env 5) (str ''abcd'' @ [10]))) = []
   \<and> model_calls (fst (process_line (char_env 5) (str ''abcd'' @ [10])))
       = [(str ''abcd'', 5, 1, False, True)]"
proof -
  have a: "strip (str ''abcd'' @ [10]) \<noteq> []"
    by (simp add: strip_def str_def isspace_def)
  have s: "strip (str ''abcd'' @ [10]) = str ''abcd''"
    by (simp add: strip_def str_def isspace_def)
  have b3: "tokenizer_encode (char_env 3) (strip (str ''abcd'' @ [10])) False = Inr [99, 100, 101, 102, 1]"
    by (simp add: strip_def str_def isspace_def char_env_defs)
  have b5: "tokenizer_encode (char_env 5) (strip (str ''abcd'' @ [10])) False = Inr [99, 100, 101, 102, 1]"
    by (simp add: strip_def str_def isspace_def char_env_defs)
  have c3: "int (length [99, 100, 101, 102, 1 :: int]) > MAX_TOKENS (char_env 3)"
    and n3: "0 \<le> MAX_TOKENS (char_env 3)"
    and c5: "int (length [99, 100, 101, 102, 1 :: int]) \<le> MAX_TOKENS (char_env 5)"
    by (simp_all add: MAX_TOKENS_def char_env_def)
  have d3: "tokenizer_decode (char_env 3) (take (nat (MAX_TOKENS (char_env 3))) [99, 100, 101, 102, 1]) True
       = Inr (str ''abc'')"
    by (simp add: MAX_TOKENS_def str_def char_env_defs)
  have t3: "take (nat (MAX_TOKENS (char_env 3))) [99, 100, 101, 102, 1 :: int] = [99, 100, 101]"
    by (simp add: MAX_TOKENS_def char_env_def)
  have m: "max_len (str ''abc'') = 5" "max_len (str ''abcd'') = 5"
    by (simp_all add: max_len_def word_count_def split_def str_def isspace_def)
  from effective_text_prefix [OF a b3, of "str ''abc''"] effective_text_prefix [OF a b5]
    a s b3 b5 c3 n3 c5 d3 t3 m
  show ?thesis by simp
qed

text \<open>
  The claim as stated also bounds the token count of the effective text by
  \<open>MAX_TOKENS\<close>. The script never tokenizes the decoded text, and the bound
  fails for a tokenizer that appends an end-of-sequence id, as the T5
  tokenizer does: with \<open>MAX_TOKENS = 3\<close> the line \<^verbatim>\<open>abcd\<close> has five tokens, the
  text fed to the generator is \<^verbatim>\<open>abc\<close>, and \<^verbatim>\<open>abc\<close> has four tokens.
\<close>

theorem effective_text_token_count_counterexample:
  "strip (str ''abcd'' @ [10]) = str ''abcd''
   \<and> tokenizer_encode (char_env 3) (str ''abcd'') False = Inr [99, 100, 101, 102, 1]
   \<and> int (length [99, 100, 101, 102, 1 :: int]) > MAX_TOKENS (char_env 3)
   \<and> model_calls (fst (process_line (char_env 3) (str ''abcd'' @ [10])))
       = [(str ''abc'', 5, 1, False, True)]
   \<and> tokenizer_encode (char_env 3) (str ''abc'') False = Inr [99, 100, 101, 1]
   \<and> \<not> int (length [99, 100, 101, 1 :: int]) \<le> MAX_TOKENS (char_env 3)"
  by (simp add: script_defs char_env_defs)

subsection \<open>C4: one output line per input line, in order\<close>

text \<open>
  Claim C4. For every finite input of \<open>N\<close> lines on which the loop body raises
  no exception, the run ends normally, exactly \<open>N\<close> lines are printed, and the
  \<open>i\<close>-th printed line is the one line that processing the \<open>i\<close>-th input
  line prints. An output line is one \<^verbatim>\<open>print\<close> call. What happens when a
  collaborator raises is the subject of claim C8.
\<close>

theorem order_preservation:
  assumes "\<forall>l\<in>set lines. snd (process_line env l) = Inr ()"
  shows "snd (run env lines) = Inr ()
     \<and> length (printed (fst (run env lines))) = length lines
     \<and> (\<forall>i<length lines.
          printed (fst (process_line env (lines ! i))) = [printed (fst (run env lines)) ! i])"
proof -
  have run: "run env lines = (traces env lines, Inr ())"
    using assms by (rule run_all_ok)
  have pr: "printed (fst (run env lines)) = map (\<lambda>l. hd (printed (fst (process_line env l)))) lines"
    using assms run by (simp add: printed_traces_ok)
  have "printed (fst (process_line env (lines ! i))) = [printed (fst (run env lines)) ! i]"
    if "i < length lines" for i
  proof -
    from that assms have "length (printed (fst (process_line env (lines ! i)))) = 1"
      by (simp add: ok_line_prints_one)
    then have "printed (fst (process_line env (lines ! i)))
        = [hd (printed (fst (process_line env (lines ! i))))]"
      by (cases "printed (fst (process_line env (lines ! i)))") simp_all
    with that pr show ?thesis by simp
  qed
  with run pr show ?thesis by simp
qed

text \<open>Three lines, the second blank.\<close>

theorem order_preservation_witness:
  "snd (process_line (char_env 512) (str ''fix me'' @ [10])) = Inr ()
   \<and> snd (process_line (char_env 512) [10]) = Inr ()
   \<and> snd (process_line (char_env 512) (str ''ok'' @ [10])) = Inr ()
   \<and> snd (run (char_env 512) [str ''fix me'' @ [10], [10], str ''ok'' @ [10]]) = Inr ()
   \<and> printed (fst (run (char_env 512) [str ''fix me'' @ [10], [10], str ''ok'' @ [10]]))
       = [(str ''fix me'', True), ([], False), (str ''ok'', True)]
   \<and> length (printed (fst (run (char_env 512) [str ''fix me'' @ [10], [10], str ''ok'' @ [10]]))) = 3
   \<and> printed (fst (process_line (char_env 512) (str ''ok'' @ [10])))
       = [printed (fst (run (char_env 512) [str ''fix me'' @ [10], [10], str ''ok'' @ [10]])) ! 2]"
proof -
  have ok1: "snd (process_line (char_env 512) (str ''fix me'' @ [10])) = Inr ()"
    and ok2: "snd (process_line (char_env 512) [10]) = Inr ()"
    and ok3: "snd (process_line (char_env 512) (str ''ok'' @ [10])) = Inr ()"
    by (simp_all add: script_defs char_env_defs)
  from ok1 ok2 ok3
  have ok: "\<forall>l\<in>set [str ''fix me'' @ [10], [10], str ''ok'' @ [10]].
      snd (process_line (char_env 512) l) = Inr ()"
    by simp
  have out: "printed (fst (run (char_env 512) [str ''fix me'' @ [10], [10], str ''ok'' @ [10]]))
       = [(str ''fix me'', True), ([], False), (str ''ok'', True)]"
    by (simp add: script_defs char_env_defs)
  have third: "printed (fst (process_line (char_env 512) (str ''ok'' @ [10])))
       = [printed (fst (run (char_env 512) [str ''fix me'' @ [10], [10], str ''ok'' @ [10]])) ! 2]"
  proof -
    from order_preservation [OF ok]
    have "i < 3 \<Longrightarrow>
        printed (fst (process_line (char_env 512) ([str ''fix me'' @ [10], [10], str ''ok'' @ [10]] ! i)))
        = [printed (fst (run (char_env 512) [str ''fix me'' @ [10], [10], str ''ok'' @ [10]])) ! i]"
      for i by simp
    from this [of 2] show ?thesis by simp
  qed
  from order_preservation [OF ok] ok1 ok2 ok3 out third show ?thesis
    by simp
qed

subsection \<open>C8: failures are not handled\<close>

text \<open>
  Claim C8. Let the lines before \<open>line\<close> be processed without an exception
  and let \<open>line\<close> be non-blank. Whatever exception the loop body raises on
  \<open>line\<close> is the outcome of the whole run: the trace ends with that line's
  trace, nothing is printed for it, and no line after it is looked at, so the
  output has one line for each earlier input line and no more. In particular,
  when \<^verbatim>\<open>encode\<close>, \<^verbatim>\<open>decode\<close> or the generator raises, the failing call is
  the last event of the run and was made once; and when the generator returns
  an empty list of candidates, the run ends with \<^verbatim>\<open>IndexError\<close> right after the
  generator call.
\<close>

theorem failure_aborts_run:
  assumes "\<forall>l\<in>set pre. snd (process_line env l) = Inr ()"
    and "strip line \<noteq> []"
  shows "(snd (process_line env line) = Inl e \<longrightarrow>
            run env (pre @ line # post) = (traces env pre @ fst (process_line env line), Inl e)
            \<and> printed (fst (process_line env line)) = []
            \<and> length (printed (fst (run env (pre @ line # post)))) = length pre)
     \<and> (tokenizer_encode env (strip line) False = Inl e \<longrightarrow>
            run env (pre @ line # post)
              = (traces env pre @ [TokenizerEncode (strip line) False], Inl e))
     \<and> (tokenizer_encode env (strip line) False = Inr ids \<and> int (length ids) > MAX_TOKENS env
          \<and> tokenizer_decode env (slice_to ids (MAX_TOKENS env)) True = Inl e \<longrightarrow>
            run env (pre @ line # post)
              = (traces env pre @ [TokenizerEncode (strip line) False,
                   TokenizerDecode (slice_to ids (MAX_TOKENS env)) True], Inl e))
     \<and> (truncate_text env (strip line) = (tr0, Inr eff)
          \<and> model env eff (max_len eff) 1 False True = Inl e \<longrightarrow>
            run env (pre @ line # post)
              = (traces env pre @ tr0 @ [ModelCall eff (max_len eff) 1 False True], Inl e))
     \<and> (truncate_text env (strip line) = (tr0, Inr eff)
          \<and> model env eff (max_len eff) 1 False True = Inr [] \<longrightarrow>
            run env (pre @ line # post)
              = (traces env pre @ tr0 @ [ModelCall eff (max_len eff) 1 False True], Inl IndexError))"
proof -
  have general: "run env (pre @ line # post) = (traces env pre @ fst (process_line env line), Inl e)
            \<and> printed (fst (process_line env line)) = []
            \<and> length (printed (fst (run env (pre @ line # post)))) = length pre"
    if fails: "snd (process_line env line) = Inl e"
  proof -
    have pl: "process_line env line = (fst (process_line env line), Inl e)"
      using fails by (simp add: prod_eq_iff)
    have run: "run env (pre @ line # post) = (traces env pre @ fst (process_line env line), Inl e)"
      using assms(1) pl by (rule run_first_failure)
    have none: "printed (fst (process_line env line)) = []"
    proof -
      obtain tr0 r where tt: "truncate_text env (strip line) = (tr0, r)"
        by (cases "truncate_text env (strip line)")
      have p0: "printed tr0 = []"
        using truncate_text_trace [of env "strip line"] tt by simp
      show ?thesis
      proof (cases r)
        case (Inl e')
        with assms(2) tt p0 show ?thesis by (simp add: process_line_stops)
      next
        case (Inr eff')
        with assms(2) tt fails have gen: "snd (generate env eff') = Inl e"
          by (simp add: process_line_goes_on)
        have "printed (fst (generate env eff')) = []"
        proof (cases "model env eff' (max_len eff') 1 False True")
          case (Inl e')
          then show ?thesis by (simp add: generate_model_fails)
        next
          case out: (Inr out)
          show ?thesis
          proof (cases out)
            case Nil
            with out show ?thesis by (simp add: generate_no_candidate)
          next
            case (Cons c cs)
            with out gen show ?thesis
              by (cases "c ''generated_text''") (simp_all add: generate_no_key generate_prints)
          qed
        qed
        with assms(2) tt Inr p0 show ?thesis
          by (simp add: process_line_goes_on printed_append)
      qed
    qed
    from run none assms(1) show ?thesis
      by (simp add: printed_append printed_traces_ok)
  qed
  have enc: "run env (pre @ line # post)
              = (traces env pre @ [TokenizerEncode (strip line) False], Inl e)"
    if "tokenizer_encode env (strip line) False = Inl e"
  proof -
    from that assms(2) have "process_line env line = ([TokenizerEncode (strip line) False], Inl e)"
      by (simp add: process_line_stops truncate_text_encode_fails)
    with assms(1) show ?thesis by (rule run_first_failure)
  qed
  have dec: "run env (pre @ line # post)
              = (traces env pre @ [TokenizerEncode (strip line) False,
                   TokenizerDecode (slice_to ids (MAX_TOKENS env)) True], Inl e)"
    if "tokenizer_encode env (strip line) False = Inr ids" "int (length ids) > MAX_TOKENS env"
       "tokenizer_decode env (slice_to ids (MAX_TOKENS env)) True = Inl e"
  proof -
    from that assms(2) have "process_line env line = ([TokenizerEncode (strip line) False,
                   TokenizerDecode (slice_to ids (MAX_TOKENS env)) True], Inl e)"
      by (simp add: process_line_stops truncate_text_over)
    with assms(1) show ?thesis by (rule run_first_failure)
  qed
  have gen: "run env (pre @ line # post)
              = (traces env pre @ tr0 @ [ModelCall eff (max_len eff) 1 False True], Inl e)"
    if "truncate_text env (strip line) = (tr0, Inr eff)"
       "model env eff (max_len eff) 1 False True = Inl e"
  proof -
    from that assms(2) have "process_line env line
        = (tr0 @ [ModelCall eff (max_len eff) 1 False True], Inl e)"
      by (simp add: process_line_goes_on generate_model_fails)
    with assms(1) show ?thesis by (simp add: run_first_failure)
  qed
  have empty: "run env (pre @ line # post)
              = (traces env pre @ tr0 @ [ModelCall eff (max_len eff) 1 False True], Inl IndexError)"
    if "truncate_text env (strip line) = (tr0, Inr eff)"
       "model env eff (max_len eff) 1 False True = Inr []"
  proof -
    from that assms(2) have "process_line env line
        = (tr0 @ [ModelCall eff (max_len eff) 1 False True], Inl IndexError)"
      by (simp add: process_line_goes_on generate_no_candidate)
    with assms(1) show ?thesis by (simp add: run_first_failure)
  qed
  from general enc dec gen empty show ?thesis by blast
qed

text \<open>
  Three input lines, the second of which makes a collaborator fail: the
  tokenizer's \<^verbatim>\<open>encode\<close>, its \<^verbatim>\<open>decode\<close>, the generator, and a generator
  without candidates. The third line leaves no event.
\<close>

theorem failure_aborts_run_witness:
  "run ((char_env 512)\<lparr>tokenizer_encode := failing_encode\<rparr>)
       [str ''ok'' @ [10], str ''bad'' @ [10], str ''later'' @ [10]]
     = ([TokenizerEncode (str ''ok'') False, ModelCall (str ''ok'') 5 1 False True,
         Print (str ''ok'') True,
         TokenizerEncode (str ''bad'') False], Inl (Raised ''encode''))
   \<and> run ((char_env 2)\<lparr>tokenizer_decode := failing_decode\<rparr>)
       [str ''a'' @ [10], str ''bad'' @ [10], str ''later'' @ [10]]
     = ([TokenizerEncode (str ''a'') False, ModelCall (str ''a'') 5 1 False True,
         Print (str ''a'') True,
         TokenizerEncode (str ''bad'') False, TokenizerDecode [100, 99] True],
        Inl (Raised ''decode''))
   \<and> run ((char_env 512)\<lparr>model := failing_model\<rparr>)
       [str ''ok'' @ [10], str ''bad'' @ [10], str ''later'' @ [10]]
     = ([TokenizerEncode (str ''ok'') False, ModelCall (str ''ok'') 5 1 False True,
         Print (str ''ok'') True,
         TokenizerEncode (str ''bad'') False, ModelCall (str ''bad'') 5 1 False True],
        Inl (Raised ''generate''))
   \<and> run ((char_env 512)\<lparr>model := no_candidates\<rparr>)
       [str ''ok'' @ [10], str ''bad'' @ [10], str ''later'' @ [10]]
     = ([TokenizerEncode (str ''ok'') False, ModelCall (str ''ok'') 5 1 False True,
         Print (str ''ok'') True,
         TokenizerEncode (str ''bad'') False, ModelCall (str ''bad'') 5 1 False True],
        Inl IndexError)"
proof -
  let ?A = "(char_env 512)\<lparr>tokenizer_encode := failing_encode\<rparr>"
  let ?B = "(char_env 2)\<lparr>tokenizer_decode := failing_decode\<rparr>"
  let ?C = "(char_env 512)\<lparr>model := failing_model\<rparr>"
  let ?D = "(char_env 512)\<lparr>model := no_candidates\<rparr>"
  note fail_defs = failing_encode_def failing_decode_def failing_model_def no_candidates_def
  have bad: "strip (str ''bad'' @ [10]) \<noteq> []" and bad_eq: "strip (str ''bad'' @ [10]) = str ''bad''"
    by (simp_all add: strip_def str_def isspace_def)
  have preA: "\<forall>l\<in>set [str ''ok'' @ [10]]. snd (process_line ?A l) = Inr ()"
    and trA: "traces ?A [str ''ok'' @ [10]] = [TokenizerEncode (str ''ok'') False,
         ModelCall (str ''ok'') 5 1 False True, Print (str ''ok'') True]"
    and encA: "tokenizer_encode ?A (strip (str ''bad'' @ [10])) False = Inl (Raised ''encode'')"
    by (simp_all add: traces_def script_defs char_env_defs fail_defs)
  have preB: "\<forall>l\<in>set [str ''a'' @ [10]]. snd (process_line ?B l) = Inr ()"
    and trB: "traces ?B [str ''a'' @ [10]] = [TokenizerEncode (str ''a'') False,
         ModelCall (str ''a'') 5 1 False True, Print (str ''a'') True]"
    and encB: "tokenizer_encode ?B (strip (str ''bad'' @ [10])) False = Inr [100, 99, 102, 1]"
    and lenB: "int (length [100, 99, 102, 1 :: int]) > MAX_TOKENS ?B"
    and cutB: "slice_to [100, 99, 102, 1 :: int] (MAX_TOKENS ?B) = [100, 99]"
    and decB: "tokenizer_decode ?B (slice_to [100, 99, 102, 1] (MAX_TOKENS ?B)) True
                = Inl (Raised ''decode'')"
    by (simp_all add: traces_def script_defs char_env_defs fail_defs)
  have preC: "\<forall>l\<in>set [str ''ok'' @ [10]]. snd (process_line ?C l) = Inr ()"
    and trC: "traces ?C [str ''ok'' @ [10]] = [TokenizerEncode (str ''ok'') False,
         ModelCall (str ''ok'') 5 1 False True, Print (str ''ok'') True]"
    and ttC: "truncate_text ?C (strip (str ''bad'' @ [10]))
                = ([TokenizerEncode (str ''bad'') False], Inr (str ''bad''))"
    and genC: "model ?C (str ''bad'') (max_len (str ''bad'')) 1 False True = Inl (Raised ''generate'')"
    by (simp_all add: traces_def script_defs char_env_defs fail_defs)
  have preD: "\<forall>l\<in>set [str ''ok'' @ [10]]. snd (process_line ?D l) = Inr ()"
    and trD: "traces ?D [str ''ok'' @ [10]] = [TokenizerEncode (str ''ok'') False,
         ModelCall (str ''ok'') 5 1 False True, Print (str ''ok'') True]"
    and ttD: "truncate_text ?D (strip (str ''bad'' @ [10]))
                = ([TokenizerEncode (str ''bad'') False], Inr (str ''bad''))"
    and genD: "model ?D (str ''bad'') (max_len (str ''bad'')) 1 False True = Inr []"
    by (simp_all add: traces_def script_defs char_env_defs fail_defs)
  have ml: "max_len (str ''bad'') = 5"
    by (simp add: max_len_def word_count_def split_def str_def isspace_def)
  have A: "run ?A [str ''ok'' @ [10], str ''bad'' @ [10], str ''later'' @ [10]]
     = ([TokenizerEncode (str ''ok'') False, ModelCall (str ''ok'') 5 1 False True,
         Print (str ''ok'') True,
         TokenizerEncode (str ''bad'') False], Inl (Raised ''encode''))"
    using failure_aborts_run [OF preA bad, of "Raised ''encode''" "[str ''later'' @ [10]]"]
      encA trA bad_eq by simp
  have B: "run ?B [str ''a'' @ [10], str ''bad'' @ [10], str ''later'' @ [10]]
     = ([TokenizerEncode (str ''a'') False, ModelCall (str ''a'') 5 1 False True,
         Print (str ''a'') True,
         TokenizerEncode (str ''bad'') False, TokenizerDecode [100, 99] True],
        Inl (Raised ''decode''))"
    using failure_aborts_run [OF preB bad, of "Raised ''decode''" "[str ''later'' @ [10]]"
        "[100, 99, 102, 1]"]
      encB lenB cutB decB trB bad_eq by simp
  have C: "run ?C [str ''ok'' @ [10], str ''bad'' @ [10], str ''later'' @ [10]]
     = ([TokenizerEncode (str ''ok'') False, ModelCall (str ''ok'') 5 1 False True,
         Print (str ''ok'') True,
         TokenizerEncode (str ''bad'') False, ModelCall (str ''bad'') 5 1 False True],
        Inl (Raised ''generate''))"
    using failure_aborts_run [OF preC bad, of "Raised ''generate''" "[str ''later'' @ [10]]" _
        "[TokenizerEncode (str ''bad'') False]" "str ''bad''"]
      ttC genC trC ml by simp
  have D: "run ?D [str ''ok'' @ [10], str ''bad'' @ [10], str ''later'' @ [10]]
     = ([TokenizerEncode (str ''ok'') False, ModelCall (str ''ok'') 5 1 False True,
         Print (str ''ok'') True,
         TokenizerEncode (str ''bad'') False, ModelCall (str ''bad'') 5 1 False True],
        Inl IndexError)"
    using failure_aborts_run [OF preD bad, of _ "[str ''later'' @ [10]]" _
        "[TokenizerEncode (str ''bad'') False]" "str ''bad''"]
      ttD genD trD ml by simp
  from A B C D show ?thesis by simp
qed

subsection \<open>C6: flushing\<close>

text \<open>
  Claim C6 says that the output is flushed after every line written, the empty
  line of a blank input included. The non-blank path prints with
  \<^verbatim>\<open>flush=True\<close> (lemma \<open>nonblank_prints_flushed\<close>); the blank path is a
  bare \<^verbatim>\<open>print()\<close>, which asks for no flush. On the input of a blank line
  followed by \<^verbatim>\<open>hi\<close>, the empty line is written without a flush and the
  first flush comes only after the next line has been tokenized and generated.
\<close>

theorem blank_line_print_not_flushed:
  "run (char_env 512) [[10], str ''hi'' @ [10]] =
     ([Print [] False,
       TokenizerEncode (str ''hi'') False, ModelCall (str ''hi'') 5 1 False True,
       Print (str ''hi'') True], Inr ())
   \<and> printed (fst (run (char_env 512) [[10], str ''hi'' @ [10]])) = [([], False), (str ''hi'', True)]"
  by (simp add: script_defs char_env_defs)

end
